theory Spec2Isabelle
  imports Complex_Main
begin

section \<open>The offer collection: client-side pagination over fetched records\<close>

text \<open>
  The development embeds \<^verbatim>\<open>static/js/collections/offer_collection.js\<close>, a Backbone
  collection that pages over an in-memory array of offers, six to a page.

  JavaScript numbers are doubles. They are modelled as \<^typ>\<open>int\<close>, which is exact as long
  as the integers involved are below \<open>2^53\<close> in magnitude: there \<open>+\<close>, \<open>-\<close> and \<open>*\<close> on
  doubles give the integer results. An array has fewer than \<open>2^32\<close> elements, so the page
  count and the pages between 1 and the page count are within that range; a page number
  handed to \<open>goToPage\<close> need not be, and what is proved about the limits computed from it
  carries the bound as a hypothesis. A value that is no finite number (\<^verbatim>\<open>undefined\<close>,
  \<^verbatim>\<open>NaN\<close>, \<^verbatim>\<open>Infinity\<close>) only ever appears in \<^verbatim>\<open>numberOfPages\<close> and is \<^const>\<open>None\<close> there;
  the code only compares that field with \<^verbatim>\<open>===\<close> to the page number, and such a value is
  equal to no integer.
\<close>

subsection \<open>Data\<close>

text \<open>The response of the offers endpoint: an object whose \<^verbatim>\<open>results\<close> array holds the
  offer records. The offers themselves are opaque.\<close>

record 'a response =
  results :: "'a list"

text \<open>The fields of the collection object. \<open>models\<close> is Backbone's array of the stored
  records (\<^verbatim>\<open>this.length\<close> is its length); the other fields are the ones the source
  assigns.\<close>

record 'a store =
  models :: "'a list"
  empty :: bool
  page :: int
  perPage :: int
  lowerLimit :: int
  upperLimit :: int
  numberOfPages :: "int option"

text \<open>What a navigation method returns: \<^verbatim>\<open>false\<close>, or an array of records.\<close>

datatype 'a jsval = JSFalse | JSArray "'a list"

subsection \<open>Operations of the language and the framework\<close>

text \<open>\<^verbatim>\<open>Array.prototype.slice(start, end)\<close>, which Backbone's \<^verbatim>\<open>Collection.slice\<close> applies to
  \<open>models\<close>: a negative index counts from the end of the array, then both indices are
  clamped to \<open>[0, length]\<close>, and the elements from the first index up to but excluding the
  second are returned (none when the second is not above the first).\<close>

definition slice :: "int \<Rightarrow> int \<Rightarrow> 'a list \<Rightarrow> 'a list" where
  "slice start fin xs =
     (let len = int (length xs);
          k = (if start < 0 then max (len + start) 0 else min start len);
          final = (if fin < 0 then max (len + fin) 0 else min fin len)
      in take (nat (final - k)) (drop (nat k) xs))"

text \<open>\<^verbatim>\<open>Math.ceil(a / b)\<close> on integers. Division by zero gives \<^verbatim>\<open>NaN\<close> or an infinity, which
  is no finite number.\<close>

definition ceil_quot :: "int \<Rightarrow> int \<Rightarrow> int option" where
  "ceil_quot a b = (if b = 0 then None else Some \<lceil>real_of_int a / real_of_int b\<rceil>)"

subsection \<open>The methods of the collection\<close>

text \<open>
  \<^verbatim>\<open>
  updateLimits: function() {
      this.lowerLimit = (this.page - 1) * this.perPage;
      this.upperLimit = this.page * this.perPage;
  }
  \<close>
  The two products are those of the doubles as long as they are below \<open>2^53\<close> in
  magnitude; beyond that the code stores rounded values, which this definition does not
  give.
\<close>

definition updateLimits :: "'a store \<Rightarrow> 'a store" where
  "updateLimits s =
     s\<lparr>lowerLimit := (page s - 1) * perPage s, upperLimit := page s * perPage s\<rparr>"

text \<open>
  \<^verbatim>\<open>
  updateNumberOfPages: function() {
      this.numberOfPages = Math.ceil(this.length / this.perPage);
  }
  \<close>
\<close>

definition updateNumberOfPages :: "'a store \<Rightarrow> 'a store" where
  "updateNumberOfPages s =
     s\<lparr>numberOfPages := ceil_quot (int (length (models s))) (perPage s)\<rparr>"

text \<open>
  \<^verbatim>\<open>
  initialize: function() {
      this.empty = false;
      this.page = 1;
      this.perPage = 6;
      this.empty = false;
      this.updateLimits();
      this.on('update', this.updateNumberOfPages);
  }
  \<close>
  The last line registers \<^const>\<open>updateNumberOfPages\<close> as the handler of the collection's
  \<^verbatim>\<open>update\<close> event; the model of a fetch below runs it where the event fires, and only
  there. Nothing else assigns \<^verbatim>\<open>numberOfPages\<close>: it is undefined until the event has fired.
\<close>

definition initialize :: "'a store \<Rightarrow> 'a store" where
  "initialize s = updateLimits (s\<lparr>empty := False, page := 1, perPage := 6, empty := False\<rparr>)"

text \<open>The object that \<^verbatim>\<open>new OfferCollection()\<close> hands to \<^const>\<open>initialize\<close>: no models yet,
  \<^verbatim>\<open>numberOfPages\<close> undefined. The fields that \<^const>\<open>initialize\<close> assigns are placeholders.\<close>

definition blank :: "'a store" where
  "blank = \<lparr>models = [], empty = False, page = 0, perPage = 0,
            lowerLimit = 0, upperLimit = 0, numberOfPages = None\<rparr>"

definition new_OfferCollection :: "'a store" where
  "new_OfferCollection = initialize blank"

text \<open>
  \<^verbatim>\<open>
  parse: function(response) {
      this._super(response);
      if (response.results.length === 0) {
          this.empty = true;
      }
      return response.results;
  }
  \<close>
  The parent's \<^verbatim>\<open>parse\<close> (\<^verbatim>\<open>collections/paginated_collection\<close>) is not part of the sources
  at hand; it is taken to leave the fields of \<^typ>\<open>'a store\<close> alone.
\<close>

definition parse :: "'a response \<Rightarrow> 'a store \<Rightarrow> 'a list \<times> 'a store" where
  "parse resp s =
     (results resp, if length (results resp) = 0 then s\<lparr>empty := True\<rparr> else s)"

text \<open>
  \<^verbatim>\<open>
  goToPage: function(pageNumber) {
      this.page = pageNumber;
      this.updateLimits();
      return this.slice(this.lowerLimit, this.upperLimit);
  }
  \<close>
\<close>

definition goToPage :: "int \<Rightarrow> 'a store \<Rightarrow> 'a jsval \<times> 'a store" where
  "goToPage pageNumber s =
     (let s1 = updateLimits (s\<lparr>page := pageNumber\<rparr>)
      in (JSArray (slice (lowerLimit s1) (upperLimit s1) (models s1)), s1))"

text \<open>
  \<^verbatim>\<open>
  onFirstPage: function() { return this.page === 1; }
  onLastPage: function() { return this.page === this.numberOfPages; }
  \<close>
  Like every method they are given the object and hand it back.
\<close>

definition onFirstPage :: "'a store \<Rightarrow> bool \<times> 'a store" where
  "onFirstPage s = (page s = 1, s)"

definition onLastPage :: "'a store \<Rightarrow> bool \<times> 'a store" where
  "onLastPage s = (Some (page s) = numberOfPages s, s)"

text \<open>
  \<^verbatim>\<open>
  nextPage: function() {
      if (this.onLastPage()) { return false; }
      else { return this.goToPage(this.page + 1); }
  }
  previousPage: function() {
      if (this.onFirstPage()) { return false; }
      else { return this.goToPage(this.page - 1); }
  }
  \<close>
\<close>

definition nextPage :: "'a store \<Rightarrow> 'a jsval \<times> 'a store" where
  "nextPage s =
     (case onLastPage s of
        (b, s1) \<Rightarrow> if b then (JSFalse, s1) else goToPage (page s1 + 1) s1)"

definition previousPage :: "'a store \<Rightarrow> 'a jsval \<times> 'a store" where
  "previousPage s =
     (case onFirstPage s of
        (b, s1) \<Rightarrow> if b then (JSFalse, s1) else goToPage (page s1 - 1) s1)"

text \<open>
  Modelled from the spec: the load of a response into the collection. In the code it is the
  framework's \<^verbatim>\<open>fetch\<close>, which the redeem page calls as
  \<^verbatim>\<open>this.collection.fetch({remove: false, data: {...}, async: false})\<close>; the framework is
  not part of the sources at hand. As in the spec's \<open>load\<close>, the response goes through
  \<^const>\<open>parse\<close> and the records it returns are stored: in place of the records stored
  before, or after them when the option \<^verbatim>\<open>remove\<close> is \<^verbatim>\<open>false\<close> as on the redeem page.
  The records of a response are taken to be new models, distinct from the stored ones.

  The page count is recomputed where the source has it recomputed: by the handler that
  \<^const>\<open>initialize\<close> registered for the \<^verbatim>\<open>update\<close> event. The framework fires that event
  after a load that added a record to the collection or removed one from it, and not after
  a load that did neither.
\<close>

definition fetch :: "bool \<Rightarrow> 'a response \<Rightarrow> 'a store \<Rightarrow> 'a store" where
  "fetch remove resp s =
     (case parse resp s of
        (ms, s1) \<Rightarrow>
          (let toAdd = ms;
               toRemove = (if remove then models s1 else []);
               s2 = s1\<lparr>models := (if remove then ms else models s1 @ ms)\<rparr>
           in if toAdd \<noteq> [] \<or> toRemove \<noteq> [] then updateNumberOfPages s2 else s2))"

subsection \<open>Sequences of calls\<close>

datatype 'a call =
    Parse "'a response"
  | Fetch bool "'a response"
  | GoToPage int
  | NextPage
  | PreviousPage

primrec exec :: "'a call \<Rightarrow> 'a store \<Rightarrow> 'a store" where
  "exec (Parse resp) s = snd (parse resp s)"
| "exec (Fetch remove resp) s = fetch remove resp s"
| "exec (GoToPage n) s = snd (goToPage n s)"
| "exec NextPage s = snd (nextPage s)"
| "exec PreviousPage s = snd (previousPage s)"

primrec run :: "'a call list \<Rightarrow> 'a store \<Rightarrow> 'a store" where
  "run [] s = s"
| "run (c # cs) s = run cs (exec c s)"

subsection \<open>Notions of the specification\<close>

text \<open>Following the spec's words, \<open>records[lo : hi]\<close> clipped to the array bounds: the
  records at the positions \<open>i\<close> with \<open>lo \<le> i < hi\<close> that exist in the array, in order.\<close>

definition clipped :: "int \<Rightarrow> int \<Rightarrow> 'a list \<Rightarrow> 'a list" where
  "clipped lo hi xs =
     map (\<lambda>i. xs ! i) (filter (\<lambda>i. lo \<le> int i \<and> int i < hi) [0..<length xs])"

text \<open>The page lies in the interval from 1 to \<open>numberOfPages\<close>.\<close>

definition inRange :: "'a store \<Rightarrow> bool" where
  "inRange s = (case numberOfPages s of None \<Rightarrow> False | Some n \<Rightarrow> 1 \<le> page s \<and> page s \<le> n)"

section \<open>Basic facts\<close>

lemma new_OfferCollection_fields:
  "models new_OfferCollection = []" "empty new_OfferCollection = False"
  "page new_OfferCollection = 1" "perPage new_OfferCollection = 6"
  "lowerLimit new_OfferCollection = 0" "upperLimit new_OfferCollection = 6"
  "numberOfPages new_OfferCollection = None"
  by (simp_all add: new_OfferCollection_def initialize_def updateLimits_def blank_def)

text \<open>With the page size 6 the ceiling of the quotient is the integer \<open>(n + 5) div 6\<close>.\<close>

lemma ceil_quot_6: "ceil_quot (int n) 6 = Some (int ((n + 5) div 6))"
  unfolding ceil_quot_def by (simp add: ceiling_unique)

subsection \<open>What one call leaves alone\<close>

lemma goToPage_frame:
  "models (snd (goToPage n s)) = models s" "perPage (snd (goToPage n s)) = perPage s"
  "empty (snd (goToPage n s)) = empty s" "numberOfPages (snd (goToPage n s)) = numberOfPages s"
  by (simp_all add: goToPage_def updateLimits_def Let_def)

lemma nextPage_frame:
  "models (snd (nextPage s)) = models s" "perPage (snd (nextPage s)) = perPage s"
  "empty (snd (nextPage s)) = empty s" "numberOfPages (snd (nextPage s)) = numberOfPages s"
  by (simp_all add: nextPage_def onLastPage_def goToPage_frame)

lemma previousPage_frame:
  "models (snd (previousPage s)) = models s" "perPage (snd (previousPage s)) = perPage s"
  "empty (snd (previousPage s)) = empty s"
  "numberOfPages (snd (previousPage s)) = numberOfPages s"
  by (simp_all add: previousPage_def onFirstPage_def goToPage_frame)

lemma parse_fields:
  "fst (parse resp s) = results resp"
  "empty (snd (parse resp s)) = (empty s \<or> results resp = [])"
  "models (snd (parse resp s)) = models s" "perPage (snd (parse resp s)) = perPage s"
  "page (snd (parse resp s)) = page s" "numberOfPages (snd (parse resp s)) = numberOfPages s"
  by (simp_all add: parse_def)

lemma fetch_fields:
  "empty (fetch rm resp s) = (empty s \<or> results resp = [])"
  "models (fetch rm resp s) = (if rm then results resp else models s @ results resp)"
  "perPage (fetch rm resp s) = perPage s" "page (fetch rm resp s) = page s"
  "numberOfPages (fetch rm resp s) =
     (if results resp \<noteq> [] \<or> (rm \<and> models s \<noteq> [])
      then ceil_quot (int (length (models (fetch rm resp s)))) (perPage s)
      else numberOfPages s)"
  by (simp_all add: fetch_def parse_def updateNumberOfPages_def Let_def)

lemma exec_perPage: "perPage (exec c s) = perPage s"
  by (cases c) (simp_all add: parse_fields fetch_fields goToPage_frame nextPage_frame
      previousPage_frame)

lemma run_perPage: "perPage (run cs s) = perPage s"
  by (induction cs arbitrary: s) (simp_all add: exec_perPage)

text \<open>The page size is 6 in every state that calls reach from a new collection.\<close>

lemma reachable_perPage: "perPage (run cs new_OfferCollection) = 6"
  by (simp add: run_perPage new_OfferCollection_fields)

subsection \<open>Slices\<close>

lemma clipped_nat:
  "map ((!) xs) (filter (\<lambda>i. a \<le> i \<and> i < b) [0..<length xs]) = drop a (take b xs)"
proof (induction xs rule: rev_induct)
  case Nil
  then show ?case by simp
next
  case (snoc x xs)
  have "map ((!) (xs @ [x])) (filter (\<lambda>i. a \<le> i \<and> i < b) [0..<length xs])
      = map ((!) xs) (filter (\<lambda>i. a \<le> i \<and> i < b) [0..<length xs])"
    by (rule map_cong) (auto simp: nth_append)
  with snoc show ?case
    by auto
qed

lemma clipped_drop_take: "clipped lo hi xs = drop (nat lo) (take (nat hi) xs)"
proof -
  have "(\<lambda>i. lo \<le> int i \<and> int i < hi) = (\<lambda>i. nat lo \<le> i \<and> i < nat hi)"
    by (auto simp: fun_eq_iff)
  then show ?thesis
    by (simp add: clipped_def clipped_nat)
qed

lemma nat_diff_nonneg: "0 \<le> lo \<Longrightarrow> nat (hi - lo) = nat hi - nat lo"
  by arith

lemma slice_nonneg:
  "0 \<le> lo \<Longrightarrow> 0 \<le> hi \<Longrightarrow> slice lo hi xs = clipped lo hi xs"
  by (auto simp: clipped_drop_take slice_def Let_def drop_take min_def nat_diff_nonneg)

lemma slice_to_0: "slice lo 0 xs = clipped lo 0 xs"
  by (simp add: clipped_drop_take slice_def Let_def)

lemma slice_negative:
  "lo < 0 \<Longrightarrow> hi < 0 \<Longrightarrow>
   slice lo hi xs = clipped (int (length xs) + lo) (int (length xs) + hi) xs"
  by (auto simp: clipped_drop_take slice_def Let_def drop_take max_def nat_diff_nonneg)

section \<open>The page predicates and the guarded steps\<close>

text \<open>
  Claim C7. In every state of the store, \<open>onFirstPage()\<close> returns true exactly when
  \<open>page\<close> is 1 and \<open>onLastPage()\<close> returns true exactly when \<open>page\<close> equals
  \<open>numberOfPages\<close>; neither changes the state.
\<close>

theorem page_predicates:
  "fst (onFirstPage s) = (page s = 1) \<and> snd (onFirstPage s) = s \<and>
   fst (onLastPage s) = (numberOfPages s = Some (page s)) \<and> snd (onLastPage s) = s"
  by (auto simp: onFirstPage_def onLastPage_def)

text \<open>
  Claim C5. On the last page, that is when \<open>page\<close> equals \<open>numberOfPages\<close>,
  \<open>nextPage()\<close> returns \<open>false\<close> and leaves the whole state of the store as it was.
\<close>

theorem nextPage_on_last_page:
  "numberOfPages s = Some (page s) \<Longrightarrow> nextPage s = (JSFalse, s)"
  by (simp add: nextPage_def onLastPage_def)

theorem nextPage_on_last_page_witness:
  "numberOfPages (snd (goToPage 3 (fetch False \<lparr>results = [0 ..< 13]\<rparr> new_OfferCollection)))
     = Some (page (snd (goToPage 3 (fetch False \<lparr>results = [0 ..< 13]\<rparr> new_OfferCollection))))
   \<and> nextPage (snd (goToPage 3 (fetch False \<lparr>results = [0 ..< 13]\<rparr> new_OfferCollection)))
     = (JSFalse, snd (goToPage 3 (fetch False \<lparr>results = [0 ..< 13]\<rparr> new_OfferCollection)))"
proof -
  have last: "numberOfPages (snd (goToPage 3 (fetch False \<lparr>results = [0 ..< 13]\<rparr> new_OfferCollection)))
     = Some (page (snd (goToPage 3 (fetch False \<lparr>results = [0 ..< 13]\<rparr> new_OfferCollection))))"
    by (simp add: goToPage_frame fetch_fields new_OfferCollection_fields ceil_quot_def
        goToPage_def updateLimits_def Let_def)
  from last nextPage_on_last_page [OF last] show ?thesis
    by (rule conjI)
qed

text \<open>
  Claim C6. On the first page, that is when \<open>page\<close> is 1, \<open>previousPage()\<close> returns
  \<open>false\<close> and leaves the whole state of the store as it was.
\<close>

theorem previousPage_on_first_page:
  "page s = 1 \<Longrightarrow> previousPage s = (JSFalse, s)"
  by (simp add: previousPage_def onFirstPage_def)

theorem previousPage_on_first_page_witness:
  "page (fetch False \<lparr>results = [0 ..< 13]\<rparr> new_OfferCollection) = 1
   \<and> previousPage (fetch False \<lparr>results = [0 ..< 13]\<rparr> new_OfferCollection)
     = (JSFalse, fetch False \<lparr>results = [0 ..< 13]\<rparr> new_OfferCollection)"
proof -
  have first: "page (fetch False \<lparr>results = [0 ..< 13]\<rparr> new_OfferCollection) = 1"
    by (simp add: fetch_fields new_OfferCollection_fields)
  from first previousPage_on_first_page [OF first] show ?thesis
    by (rule conjI)
qed

text \<open>
  Claim C8. Away from the last page \<open>nextPage()\<close> is \<open>goToPage(page + 1)\<close>, and away from
  the first page \<open>previousPage()\<close> is \<open>goToPage(page - 1)\<close>: the same returned value and
  the same resulting state.
\<close>

theorem step_is_goToPage:
  "(numberOfPages s \<noteq> Some (page s) \<longrightarrow> nextPage s = goToPage (page s + 1) s) \<and>
   (page s \<noteq> 1 \<longrightarrow> previousPage s = goToPage (page s - 1) s)"
  by (auto simp: nextPage_def previousPage_def onLastPage_def onFirstPage_def)

theorem step_is_goToPage_witness:
  "numberOfPages (snd (goToPage 2 (fetch False \<lparr>results = [0 ..< 13]\<rparr> new_OfferCollection)))
     \<noteq> Some (page (snd (goToPage 2 (fetch False \<lparr>results = [0 ..< 13]\<rparr> new_OfferCollection))))
   \<and> page (snd (goToPage 2 (fetch False \<lparr>results = [0 ..< 13]\<rparr> new_OfferCollection))) \<noteq> 1
   \<and> nextPage (snd (goToPage 2 (fetch False \<lparr>results = [0 ..< 13]\<rparr> new_OfferCollection)))
     = goToPage 3 (snd (goToPage 2 (fetch False \<lparr>results = [0 ..< 13]\<rparr> new_OfferCollection)))
   \<and> previousPage (snd (goToPage 2 (fetch False \<lparr>results = [0 ..< 13]\<rparr> new_OfferCollection)))
     = goToPage 1 (snd (goToPage 2 (fetch False \<lparr>results = [0 ..< 13]\<rparr> new_OfferCollection)))"
proof -
  have pg: "page (snd (goToPage 2 (fetch False \<lparr>results = [0 ..< 13]\<rparr> new_OfferCollection))) = 2"
    by (simp add: goToPage_def updateLimits_def Let_def)
  have np: "numberOfPages (snd (goToPage 2 (fetch False \<lparr>results = [0 ..< 13]\<rparr> new_OfferCollection)))
      = Some 3"
    by (simp add: goToPage_frame fetch_fields new_OfferCollection_fields ceil_quot_def)
  show ?thesis
    using step_is_goToPage
      [of "snd (goToPage 2 (fetch False \<lparr>results = [0 ..< 13]\<rparr> new_OfferCollection))"]
    by (simp add: pg np)
qed

text \<open>
  Claim C10. For every state and every page number \<open>n\<close>, \<open>goToPage(n)\<close>, \<open>nextPage()\<close> and
  \<open>previousPage()\<close> leave the stored records, \<open>perPage\<close>, \<open>empty\<close> and \<open>numberOfPages\<close> as
  they were: the resulting state is the old one with at most \<open>page\<close>, \<open>lowerLimit\<close> and
  \<open>upperLimit\<close> assigned.
\<close>

theorem navigation_frame:
  "models (snd (goToPage n s)) = models s \<and> perPage (snd (goToPage n s)) = perPage s \<and>
   empty (snd (goToPage n s)) = empty s \<and>
   numberOfPages (snd (goToPage n s)) = numberOfPages s \<and>
   models (snd (nextPage s)) = models s \<and> perPage (snd (nextPage s)) = perPage s \<and>
   empty (snd (nextPage s)) = empty s \<and>
   numberOfPages (snd (nextPage s)) = numberOfPages s \<and>
   models (snd (previousPage s)) = models s \<and> perPage (snd (previousPage s)) = perPage s \<and>
   empty (snd (previousPage s)) = empty s \<and>
   numberOfPages (snd (previousPage s)) = numberOfPages s \<and>
   (\<exists>p l u. snd (goToPage n s) = s\<lparr>page := p, lowerLimit := l, upperLimit := u\<rparr>) \<and>
   (\<exists>p l u. snd (nextPage s) = s\<lparr>page := p, lowerLimit := l, upperLimit := u\<rparr>) \<and>
   (\<exists>p l u. snd (previousPage s) = s\<lparr>page := p, lowerLimit := l, upperLimit := u\<rparr>)"
proof -
  have g: "\<exists>p l u. snd (goToPage m s) = s\<lparr>page := p, lowerLimit := l, upperLimit := u\<rparr>" for m
    by (auto simp: goToPage_def updateLimits_def Let_def)
  have same: "s = s\<lparr>page := page s, lowerLimit := lowerLimit s, upperLimit := upperLimit s\<rparr>"
    by simp
  have n: "\<exists>p l u. snd (nextPage s) = s\<lparr>page := p, lowerLimit := l, upperLimit := u\<rparr>"
  proof (cases "Some (page s) = numberOfPages s")
    case True
    then have "snd (nextPage s) = s" by (simp add: nextPage_def onLastPage_def)
    with same show ?thesis by metis
  next
    case False
    then have "snd (nextPage s) = snd (goToPage (page s + 1) s)"
      by (simp add: nextPage_def onLastPage_def)
    with g show ?thesis by simp
  qed
  have p: "\<exists>p l u. snd (previousPage s) = s\<lparr>page := p, lowerLimit := l, upperLimit := u\<rparr>"
  proof (cases "page s = 1")
    case True
    then have "snd (previousPage s) = s" by (simp add: previousPage_def onFirstPage_def)
    with same show ?thesis by metis
  next
    case False
    then have "snd (previousPage s) = snd (goToPage (page s - 1) s)"
      by (simp add: previousPage_def onFirstPage_def)
    with g show ?thesis by simp
  qed
  from g [of n] n p show ?thesis
    by (simp only: goToPage_frame nextPage_frame previousPage_frame simp_thms)
qed

section \<open>Loading\<close>




text \<open>
  Claim C2, as amended. After every load, \<open>empty\<close> is true exactly when it was true before
  or the loaded sequence has no records; after the first load into a new collection,
  \<open>empty\<close> equals \<open>records.length == 0\<close>. (As the claim states it, with a non-empty load
  after an empty one, it fails: see the counterexample.)
\<close>

theorem empty_after_load:
  "empty (fetch rm resp s) = (empty s \<or> length (results resp) = 0) \<and>
   empty (fetch rm resp new_OfferCollection) = (length (results resp) = 0)"
  by (simp add: fetch_fields new_OfferCollection_fields)

theorem empty_after_load_witness:
  "empty (fetch False \<lparr>results = []\<rparr> (new_OfferCollection :: nat store)) \<and>
   \<not> empty (fetch False \<lparr>results = [0 ..< 13]\<rparr> new_OfferCollection) \<and>
   empty (fetch False \<lparr>results = [0 ..< 13]\<rparr>
            (fetch False \<lparr>results = []\<rparr> new_OfferCollection))"
proof -
  have first: "empty (fetch False \<lparr>results = []\<rparr> (new_OfferCollection :: nat store))"
    using empty_after_load [of False "\<lparr>results = ([] :: nat list)\<rparr>" new_OfferCollection]
    by simp
  have filled: "\<not> empty (fetch False \<lparr>results = [0 ..< 13]\<rparr> new_OfferCollection)"
    using empty_after_load [of False "\<lparr>results = [0 ..< 13]\<rparr>" new_OfferCollection]
    by (simp add: new_OfferCollection_fields)
  have again: "empty (fetch False \<lparr>results = [0 ..< 13]\<rparr>
      (fetch False \<lparr>results = []\<rparr> new_OfferCollection))"
    using first
      empty_after_load [of False "\<lparr>results = [0 ..< 13]\<rparr>"
        "fetch False \<lparr>results = []\<rparr> new_OfferCollection"]
    by simp
  from first filled again show ?thesis
    by simp
qed

theorem empty_after_second_load_counterexample:
  "empty (fetch True \<lparr>results = [Suc 0]\<rparr>
            (fetch True \<lparr>results = []\<rparr> (new_OfferCollection :: nat store)))
   \<noteq> (length (results \<lparr>results = [Suc 0]\<rparr>) = 0)"
  by (simp add: fetch_fields)

lemma exec_empty: "empty s \<Longrightarrow> empty (exec c s)"
  by (cases c) (simp_all add: parse_fields fetch_fields goToPage_frame nextPage_frame
      previousPage_frame)

lemma run_empty: "empty s \<Longrightarrow> empty (run cs s)"
  by (induction cs arbitrary: s) (simp_all add: exec_empty)

text \<open>
  Claim C9. Once a parse of an empty result set has set \<open>empty\<close>, it stays set: no
  sequence of later parses, loads, \<open>goToPage\<close>, \<open>nextPage\<close> and \<open>previousPage\<close> calls on the
  store makes it false again.
\<close>

theorem empty_is_sticky:
  "results resp = [] \<Longrightarrow>
   empty (snd (parse resp s)) \<and> empty (run cs (snd (parse resp s)))"
  by (simp add: run_empty parse_fields)

theorem empty_is_sticky_witness:
  "results \<lparr>results = ([] :: nat list)\<rparr> = [] \<and>
   empty (snd (parse \<lparr>results = []\<rparr> (new_OfferCollection :: nat store))) \<and>
   empty (run [Parse \<lparr>results = [1, 2]\<rparr>, Fetch True \<lparr>results = [3]\<rparr>,
               Fetch False \<lparr>results = [4]\<rparr>, GoToPage 1, NextPage, PreviousPage]
            (snd (parse \<lparr>results = []\<rparr> (new_OfferCollection :: nat store))))"
  using empty_is_sticky [of "\<lparr>results = ([] :: nat list)\<rparr>" new_OfferCollection
      "[Parse \<lparr>results = [1, 2]\<rparr>, Fetch True \<lparr>results = [3]\<rparr>,
        Fetch False \<lparr>results = [4]\<rparr>, GoToPage 1, NextPage, PreviousPage]"]
  by simp

section \<open>Jumping to a page\<close>

text \<open>
  Claim C1, as amended. In a store with page size 6, for every integer \<open>p\<close> whose limits
  \<open>(p-1)*6\<close> and \<open>p*6\<close> are below \<open>2^53\<close> in magnitude (so that the arithmetic on doubles
  is exact), the call \<open>goToPage(p)\<close> sets \<open>page\<close> to \<open>p\<close>, \<open>lowerLimit\<close> to \<open>(p-1)*6\<close> and
  \<open>upperLimit\<close> to \<open>p*6\<close>. For every such \<open>p \<ge> 0\<close> it returns exactly
  \<open>records[(p-1)*6 : p*6]\<close> clipped to the array bounds. For every such \<open>p < 0\<close> both
  limits are negative and the slice counts them from the end of the array: it returns the
  records at the positions from \<open>length + (p-1)*6\<close> up to \<open>length + p*6\<close>, clipped to the
  array bounds.
\<close>

theorem goToPage_slice:
  assumes "perPage s = 6" and "\<bar>(p - 1) * 6\<bar> < 2 ^ 53" and "\<bar>p * 6\<bar> < 2 ^ 53"
  shows "page (snd (goToPage p s)) = p \<and>
         lowerLimit (snd (goToPage p s)) = (p - 1) * 6 \<and>
         upperLimit (snd (goToPage p s)) = p * 6 \<and>
         (0 \<le> p \<longrightarrow>
            fst (goToPage p s) = JSArray (clipped ((p - 1) * 6) (p * 6) (models s))) \<and>
         (p < 0 \<longrightarrow>
            fst (goToPage p s) =
              JSArray (clipped (int (length (models s)) + (p - 1) * 6)
                               (int (length (models s)) + p * 6) (models s)))"
proof -
  have ret: "fst (goToPage p s) = JSArray (slice ((p - 1) * 6) (p * 6) (models s))"
    using assms(1) by (simp add: goToPage_def updateLimits_def Let_def)
  have fields: "page (snd (goToPage p s)) = p"
    "lowerLimit (snd (goToPage p s)) = (p - 1) * 6"
    "upperLimit (snd (goToPage p s)) = p * 6"
    using assms(1) by (simp_all add: goToPage_def updateLimits_def Let_def)
  have pos: "slice ((p - 1) * 6) (p * 6) (models s)
      = clipped ((p - 1) * 6) (p * 6) (models s)" if "0 \<le> p"
  proof (cases "p = 0")
    case True
    then show ?thesis by (simp add: slice_to_0)
  next
    case False
    with that have "0 \<le> (p - 1) * 6" "0 \<le> p * 6" by simp_all
    then show ?thesis by (rule slice_nonneg)
  qed
  have neg: "slice ((p - 1) * 6) (p * 6) (models s)
      = clipped (int (length (models s)) + (p - 1) * 6)
          (int (length (models s)) + p * 6) (models s)" if "p < 0"
  proof -
    from that have "(p - 1) * 6 < 0" "p * 6 < 0" by simp_all
    then show ?thesis by (rule slice_negative)
  qed
  from fields ret pos neg show ?thesis by simp
qed

theorem goToPage_slice_witness:
  "perPage (fetch False \<lparr>results = [0 ..< 13]\<rparr> new_OfferCollection) = 6 \<and>
   \<bar>(3 - 1) * 6 :: int\<bar> < 2 ^ 53 \<and> \<bar>3 * 6 :: int\<bar> < 2 ^ 53 \<and>
   fst (goToPage 3 (fetch False \<lparr>results = [0 ..< 13]\<rparr> new_OfferCollection)) = JSArray [12] \<and>
   fst (goToPage 2 (fetch False \<lparr>results = [0 ..< 13]\<rparr> new_OfferCollection))
     = JSArray [6, 7, 8, 9, 10, 11] \<and>
   fst (goToPage 4 (fetch False \<lparr>results = [0 ..< 13]\<rparr> new_OfferCollection)) = JSArray [] \<and>
   fst (goToPage (- 1) (fetch False \<lparr>results = [0 ..< 13]\<rparr> new_OfferCollection))
     = JSArray [1, 2, 3, 4, 5, 6] \<and>
   page (snd (goToPage 3 (fetch False \<lparr>results = [0 ..< 13]\<rparr> new_OfferCollection))) = 3 \<and>
   lowerLimit (snd (goToPage 3 (fetch False \<lparr>results = [0 ..< 13]\<rparr> new_OfferCollection))) = 12 \<and>
   upperLimit (snd (goToPage 3 (fetch False \<lparr>results = [0 ..< 13]\<rparr> new_OfferCollection))) = 18"
proof -
  have six: "perPage (fetch False \<lparr>results = [0 ..< 13]\<rparr> new_OfferCollection) = 6"
    by (simp add: fetch_fields new_OfferCollection_fields)
  have recs: "models (fetch False \<lparr>results = [0 ..< 13]\<rparr> new_OfferCollection)
      = [0, 1, 2, 3, 4, 5, 6, 7, 8, 9, 10, 11, 12]"
    by (simp add: fetch_fields new_OfferCollection_fields upt_rec)
  show ?thesis
    using six goToPage_slice [OF six, of 3] goToPage_slice [OF six, of 2]
      goToPage_slice [OF six, of 4] goToPage_slice [OF six, of "- 1"]
    by (simp add: recs clipped_drop_take)
qed

text \<open>As the claim states it, for every integer \<open>p\<close>, it fails for a negative page number:
  with seven records \<open>goToPage(-1)\<close> is \<open>slice(-12, -6)\<close>, which returns the first record,
  while no position from \<open>-12\<close> up to \<open>-6\<close> lies within the array.\<close>

theorem goToPage_negative_counterexample:
  "fst (goToPage (- 1) (fetch False \<lparr>results = [0, 1, 2, 3, 4, 5, 6 :: nat]\<rparr> new_OfferCollection))
     = JSArray [0] \<and>
   clipped ((- 1 - 1) * 6) (- 1 * 6)
     (models (fetch False \<lparr>results = [0, 1, 2, 3, 4, 5, 6 :: nat]\<rparr> new_OfferCollection)) = [] \<and>
   fst (goToPage (- 1) (fetch False \<lparr>results = [0, 1, 2, 3, 4, 5, 6 :: nat]\<rparr> new_OfferCollection))
     \<noteq> JSArray (clipped ((- 1 - 1) * 6) (- 1 * 6)
          (models (fetch False \<lparr>results = [0, 1, 2, 3, 4, 5, 6 :: nat]\<rparr> new_OfferCollection)))"
  by (simp add: goToPage_def updateLimits_def slice_def Let_def fetch_fields
      new_OfferCollection_fields clipped_def)

section \<open>Stepping through the pages\<close>

lemma nextPage_inRange: "inRange s \<Longrightarrow> inRange (snd (nextPage s))"
  by (auto simp: inRange_def nextPage_def onLastPage_def goToPage_def updateLimits_def Let_def
      split: option.splits)

lemma previousPage_inRange: "inRange s \<Longrightarrow> inRange (snd (previousPage s))"
  by (auto simp: inRange_def previousPage_def onFirstPage_def goToPage_def updateLimits_def
      Let_def split: option.splits)

lemma steps_inRange:
  "set cs \<subseteq> {NextPage, PreviousPage} \<Longrightarrow> inRange s \<Longrightarrow> inRange (run cs s)"
proof (induction cs arbitrary: s)
  case Nil
  then show ?case by simp
next
  case (Cons c cs)
  from Cons.prems have "c = NextPage \<or> c = PreviousPage" by simp
  with Cons.prems have "inRange (exec c s)"
    by (auto simp: nextPage_inRange previousPage_inRange)
  with Cons show ?case by simp
qed

lemma steps_numberOfPages:
  "set cs \<subseteq> {NextPage, PreviousPage} \<Longrightarrow> numberOfPages (run cs s) = numberOfPages s"
  by (induction cs arbitrary: s) (auto simp: nextPage_frame previousPage_frame)

lemma pages_of_nonempty: "0 < n \<Longrightarrow> 1 \<le> \<lceil>real n / 6\<rceil>"
  by (simp add: one_le_ceiling)

text \<open>
  Claim C3, as amended. For a store freshly loaded with at least one record (so \<open>page\<close> is 1
  and \<open>numberOfPages\<close> is at least 1), in every state reached by \<open>nextPage\<close> and
  \<open>previousPage\<close> calls only, \<open>page\<close> lies in the interval from 1 to \<open>numberOfPages\<close>, and a
  \<open>nextPage\<close> at the upper bound or a \<open>previousPage\<close> at the lower bound leaves the state as
  it is.
\<close>

theorem page_stays_in_range:
  assumes "results resp \<noteq> []" and "set cs \<subseteq> {NextPage, PreviousPage}"
  shows "numberOfPages (run cs (fetch rm resp new_OfferCollection))
           = Some \<lceil>real (length (results resp)) / 6\<rceil> \<and>
         1 \<le> page (run cs (fetch rm resp new_OfferCollection)) \<and>
         page (run cs (fetch rm resp new_OfferCollection)) \<le> \<lceil>real (length (results resp)) / 6\<rceil> \<and>
         (page (run cs (fetch rm resp new_OfferCollection)) = \<lceil>real (length (results resp)) / 6\<rceil>
            \<longrightarrow> snd (nextPage (run cs (fetch rm resp new_OfferCollection)))
                  = run cs (fetch rm resp new_OfferCollection)) \<and>
         (page (run cs (fetch rm resp new_OfferCollection)) = 1
            \<longrightarrow> snd (previousPage (run cs (fetch rm resp new_OfferCollection)))
                  = run cs (fetch rm resp new_OfferCollection))"
proof -
  let ?s0 = "fetch rm resp new_OfferCollection"
  let ?n = "\<lceil>real (length (results resp)) / 6\<rceil>"
  have n0: "numberOfPages ?s0 = Some ?n"
    using assms(1) by (simp add: fetch_fields new_OfferCollection_fields ceil_quot_def)
  have "1 \<le> ?n"
    using assms(1) by (intro pages_of_nonempty) simp
  moreover have "page ?s0 = 1"
    by (simp add: fetch_fields new_OfferCollection_fields)
  ultimately have "inRange ?s0"
    using n0 by (simp add: inRange_def)
  with assms(2) have "inRange (run cs ?s0)"
    by (rule steps_inRange)
  moreover have n: "numberOfPages (run cs ?s0) = Some ?n"
    using assms(2) n0 by (simp add: steps_numberOfPages)
  ultimately have range: "1 \<le> page (run cs ?s0)" "page (run cs ?s0) \<le> ?n"
    by (simp_all add: inRange_def)
  have "snd (nextPage (run cs ?s0)) = run cs ?s0" if "page (run cs ?s0) = ?n"
    using that n by (simp add: nextPage_def onLastPage_def)
  moreover have "snd (previousPage (run cs ?s0)) = run cs ?s0" if "page (run cs ?s0) = 1"
    using that by (simp add: previousPage_def onFirstPage_def)
  ultimately show ?thesis
    using n range by simp
qed

theorem page_stays_in_range_witness:
  "results \<lparr>results = [0 ..< 13]\<rparr> \<noteq> [] \<and>
   set [NextPage, NextPage, NextPage :: nat call] \<subseteq> {NextPage, PreviousPage} \<and>
   numberOfPages (run [NextPage, NextPage, NextPage]
                    (fetch False \<lparr>results = [0 ..< 13]\<rparr> new_OfferCollection)) = Some 3 \<and>
   page (run [NextPage, NextPage, NextPage]
           (fetch False \<lparr>results = [0 ..< 13]\<rparr> new_OfferCollection)) = 3 \<and>
   snd (nextPage (run [NextPage, NextPage, NextPage]
                    (fetch False \<lparr>results = [0 ..< 13]\<rparr> new_OfferCollection)))
     = run [NextPage, NextPage, NextPage]
         (fetch False \<lparr>results = [0 ..< 13]\<rparr> new_OfferCollection)"
proof -
  have recs: "results \<lparr>results = [0 ..< 13]\<rparr> \<noteq> []"
    by simp
  have steps: "set [NextPage, NextPage, NextPage :: nat call] \<subseteq> {NextPage, PreviousPage}"
    by simp
  have pg: "page (run [NextPage, NextPage, NextPage]
      (fetch False \<lparr>results = [0 ..< 13]\<rparr> new_OfferCollection)) = 3"
    by (simp add: nextPage_def onLastPage_def goToPage_def updateLimits_def Let_def
        fetch_fields new_OfferCollection_fields ceil_quot_def)
  show ?thesis
    using recs steps pg page_stays_in_range [OF recs steps, of False]
    by simp
qed

text \<open>As the claim states it, including the empty store, it fails. After the load of no
  records into a new collection \<open>page\<close> is 1 and \<open>numberOfPages\<close> is undefined; after a load
  of no records that replaces thirteen, \<open>page\<close> is 1 and \<open>numberOfPages\<close> is 0. Either way
  \<open>page\<close> is outside the interval from the start, \<open>onLastPage()\<close> is false, and
  \<open>nextPage()\<close> moves on to page 2.\<close>

theorem empty_store_counterexample:
  "page (fetch False \<lparr>results = []\<rparr> (new_OfferCollection :: nat store)) = 1 \<and>
   numberOfPages (fetch False \<lparr>results = []\<rparr> (new_OfferCollection :: nat store)) = None \<and>
   \<not> inRange (fetch False \<lparr>results = []\<rparr> (new_OfferCollection :: nat store)) \<and>
   page (snd (nextPage (fetch False \<lparr>results = []\<rparr> (new_OfferCollection :: nat store)))) = 2 \<and>
   snd (nextPage (fetch False \<lparr>results = []\<rparr> (new_OfferCollection :: nat store)))
     \<noteq> fetch False \<lparr>results = []\<rparr> (new_OfferCollection :: nat store) \<and>
   \<not> inRange (snd (nextPage (fetch False \<lparr>results = []\<rparr> (new_OfferCollection :: nat store)))) \<and>
   page (fetch True \<lparr>results = []\<rparr>
           (fetch False \<lparr>results = [0 ..< 13]\<rparr> new_OfferCollection)) = 1 \<and>
   numberOfPages (fetch True \<lparr>results = []\<rparr>
                    (fetch False \<lparr>results = [0 ..< 13]\<rparr> new_OfferCollection)) = Some 0 \<and>
   page (snd (nextPage (fetch True \<lparr>results = []\<rparr>
                          (fetch False \<lparr>results = [0 ..< 13]\<rparr> new_OfferCollection)))) = 2"
proof -
  let ?e = "fetch False \<lparr>results = []\<rparr> (new_OfferCollection :: nat store)"
  let ?r = "fetch True \<lparr>results = []\<rparr> (fetch False \<lparr>results = [0 ..< 13]\<rparr> new_OfferCollection)"
  have n: "numberOfPages ?e = None" and p: "page ?e = 1"
    by (simp_all add: fetch_fields new_OfferCollection_fields)
  have p2: "page (snd (nextPage ?e)) = 2"
    by (simp add: nextPage_def onLastPage_def goToPage_def updateLimits_def Let_def n p)
  have n2: "numberOfPages (snd (nextPage ?e)) = None"
    by (simp add: nextPage_frame n)
  from p p2 have moved: "snd (nextPage ?e) \<noteq> ?e"
    by auto
  have rn: "numberOfPages ?r = Some 0" and rp: "page ?r = 1"
    by (simp_all add: fetch_fields new_OfferCollection_fields ceil_quot_def)
  have rp2: "page (snd (nextPage ?r)) = 2"
    by (simp add: nextPage_def onLastPage_def goToPage_def updateLimits_def Let_def rn rp)
  from n p p2 n2 moved rn rp rp2 show ?thesis
    by (simp add: inRange_def)
qed

end
